theory Spec2Isabelle
  imports Main "HOL-Library.AList"
begin

section \<open>Python built-ins used by the monitor\<close>

text \<open>
  A Python \<open>str\<close> is modelled as a \<open>string\<close> whose characters are code points below
  256. Every raise of the source is a value: a function that can raise returns
  \<open>py_error + 'a\<close>, with \<open>Inl\<close> for the exception.
\<close>

datatype py_error = IndexError | ValueError | AssertionError | SSHException | OtherError

definition py_index :: "'a list \<Rightarrow> nat \<Rightarrow> py_error + 'a" where
  \<comment> \<open>\<open>xs[i]\<close> for a literal index \<open>i \<ge> 0\<close>\<close>
  "py_index xs i = (if i < length xs then Inr (xs ! i) else Inl IndexError)"

fun starts_with :: "string \<Rightarrow> string \<Rightarrow> bool" where
  \<comment> \<open>\<open>starts_with p s\<close>: the text \<open>s\<close> begins with \<open>p\<close>\<close>
  "starts_with [] s = True"
| "starts_with (p # ps) [] = False"
| "starts_with (p # ps) (c # cs) = (p = c \<and> starts_with ps cs)"

fun py_in :: "string \<Rightarrow> string \<Rightarrow> bool" where
  \<comment> \<open>\<open>sub in s\<close> on strings\<close>
  "py_in sub [] = (sub = [])"
| "py_in sub (c # cs) = (starts_with sub (c # cs) \<or> py_in sub cs)"

fun py_split_from :: "string \<Rightarrow> string \<Rightarrow> string \<Rightarrow> string list" where
  \<comment> \<open>the scan of \<open>str.split(sep)\<close>: \<open>cur\<close> holds the current piece, reversed\<close>
  "py_split_from sep cur [] = [rev cur]"
| "py_split_from sep cur (c # cs) =
     (if sep \<noteq> [] \<and> starts_with sep (c # cs)
      then rev cur # py_split_from sep [] (drop (length sep - 1) cs)
      else py_split_from sep (c # cur) cs)"

definition py_split :: "string \<Rightarrow> string \<Rightarrow> string list" where
  \<comment> \<open>\<open>s.split(sep)\<close>; every separator of the source is a non-empty literal
      (Python raises ValueError on an empty one, which no call site passes)\<close>
  "py_split sep s = py_split_from sep [] s"

fun py_replace :: "string \<Rightarrow> string \<Rightarrow> string \<Rightarrow> string" where
  \<comment> \<open>\<open>s.replace(old, new)\<close> for a non-empty literal \<open>old\<close>\<close>
  "py_replace old new [] = []"
| "py_replace old new (c # cs) =
     (if old \<noteq> [] \<and> starts_with old (c # cs)
      then new @ py_replace old new (drop (length old - 1) cs)
      else c # py_replace old new cs)"

definition py_isspace :: "char \<Rightarrow> bool" where
  \<comment> \<open>the code points below 256 that \<open>str.isspace\<close> accepts\<close>
  "py_isspace c =
     (let n = (of_char c :: nat)
      in (9 \<le> n \<and> n \<le> 13) \<or> (28 \<le> n \<and> n \<le> 32) \<or> n = 133 \<or> n = 160)"

definition py_strip :: "string \<Rightarrow> string" where
  "py_strip s = rev (dropWhile py_isspace (rev (dropWhile py_isspace s)))"

definition py_isdigit :: "char \<Rightarrow> bool" where
  "py_isdigit c = (let n = (of_char c :: nat) in 48 \<le> n \<and> n \<le> 57)"

fun digits_ok :: "string \<Rightarrow> bool" where
  \<comment> \<open>decimal digits, single underscores allowed between two digits\<close>
  "digits_ok [] = False"
| "digits_ok [c] = py_isdigit c"
| "digits_ok (c # d # cs) =
     (py_isdigit c \<and> (if d = CHR ''_'' then digits_ok cs else digits_ok (d # cs)))"

definition digits_value :: "string \<Rightarrow> nat" where
  "digits_value s =
     foldl (\<lambda>acc c. 10 * acc + (of_char c - 48)) 0 (filter (\<lambda>c. c \<noteq> CHR ''_'') s)"

definition py_int :: "string \<Rightarrow> int option" where
  \<comment> \<open>\<open>int(s)\<close> in base 10; \<open>None\<close> stands for ValueError. The interpreter's limit on
      the number of digits of newer Python versions is not modelled.\<close>
  "py_int s =
     (case py_strip s of
        [] \<Rightarrow> None
      | c # cs \<Rightarrow>
          if c = CHR ''-'' then (if digits_ok cs then Some (- int (digits_value cs)) else None)
          else if c = CHR ''+'' then (if digits_ok cs then Some (int (digits_value cs)) else None)
          else if digits_ok (c # cs) then Some (int (digits_value (c # cs))) else None)"

fun nat_digits :: "nat \<Rightarrow> string" where
  "nat_digits n =
     (if n < 10 then [''0123456789'' ! n]
      else nat_digits (n div 10) @ [''0123456789'' ! (n mod 10)])"

declare nat_digits.simps [simp del]

definition py_str_int :: "int \<Rightarrow> string" where
  \<comment> \<open>\<open>str(n)\<close> of an integer\<close>
  "py_str_int n = (if n < 0 then CHR ''-'' # nat_digits (nat (- n)) else nat_digits (nat n))"

fun py_join :: "string \<Rightarrow> string list \<Rightarrow> string" where
  \<comment> \<open>\<open>sep.join(xs)\<close>\<close>
  "py_join sep [] = []"
| "py_join sep [x] = x"
| "py_join sep (x # y # ys) = x @ sep @ py_join sep (y # ys)"

section \<open>Experiment ids (machine\_monitor.py)\<close>

definition id_announcement :: string where
  "id_announcement = ''Started run with ID ''"

definition extract_exp_id :: "string \<Rightarrow> py_error + int option" where
  \<comment> \<open>\<open>MachineMonitor._extract_exp_id\<close>: only \<open>int(number)\<close> is inside the \<open>try\<close>\<close>
  "extract_exp_id line =
     (if py_in id_announcement line then
        (case py_index (py_split id_announcement line) 1 of
           Inl e \<Rightarrow> Inl e
         | Inr rest \<Rightarrow>
             (case py_index (py_split [CHR 0x22] rest) 1 of
                Inl e \<Rightarrow> Inl e
              | Inr number \<Rightarrow> Inr (py_int number)))
      else Inr None)"

text \<open>
  A cell of the EXPID column: \<open>monitor_exp_id\<close> returns the stored integer or the
  text \<open>"?"\<close>, and \<open>_write\<close> puts the text \<open>"??"\<close> there.
\<close>

datatype cell = IntCell int | StrCell string

definition is_not_None :: "'a option \<Rightarrow> bool" where
  \<comment> \<open>\<open>x is not None\<close> for a reference \<open>x\<close>: \<open>None\<close>, or \<open>Some\<close> object\<close>
  "is_not_None x = (case x of None \<Rightarrow> False | Some obj \<Rightarrow> True)"

definition exp_id_known :: "(int \<rightharpoonup> int) \<Rightarrow> int \<Rightarrow> bool" where
  \<comment> \<open>\<open>group_id in self.exp_ids is not None\<close>: Python chains the two comparisons, so
      this is \<open>(group_id in self.exp_ids) and (self.exp_ids is not None)\<close>; the
      attribute holds the dict made by \<open>__init__\<close>, the reference \<open>Some exp_ids\<close>\<close>
  "exp_id_known exp_ids group_id =
     (exp_ids group_id \<noteq> None \<and> is_not_None (Some exp_ids))"

definition monitor_exp_id ::
  "(int \<rightharpoonup> int) \<Rightarrow> string \<Rightarrow> int \<Rightarrow> py_error + ((int \<rightharpoonup> int) \<times> cell)" where
  \<comment> \<open>returns the updated \<open>exp_ids\<close> and the value returned\<close>
  "monitor_exp_id exp_ids line group_id =
     (case extract_exp_id line of
        Inl e \<Rightarrow> Inl e
      | Inr parsed \<Rightarrow>
          (let exp_ids' = (case parsed of None \<Rightarrow> exp_ids | Some v \<Rightarrow> exp_ids(group_id \<mapsto> v))
           in Inr (exp_ids',
                   if exp_id_known exp_ids' group_id
                   then (case exp_ids' group_id of Some v \<Rightarrow> IntCell v | None \<Rightarrow> StrCell ''?'')
                   else StrCell ''?'')))"

section \<open>Parsing the remote output (machine\_monitor.py, run)\<close>

record gpu_sample =
  util :: string
  used_mem :: string
  total_mem :: string

definition mib_to_gib :: "int \<Rightarrow> int" where
  \<comment> \<open>\<open>int(round(x / 1024, 0))\<close> for an integral \<open>x\<close>: the quotient is exact in
      binary floating point and \<open>round\<close> takes the nearest integer, a tie to the
      even one\<close>
  "mib_to_gib n =
     (let q = n div 1024; r = n mod 1024
      in if r < 512 then q else if 512 < r then q + 1 else if even q then q else q + 1)"

definition py_float_integral :: "string \<Rightarrow> py_error + int" where
  \<comment> \<open>\<open>float(tok)\<close> on the tokens nvidia-smi prints for memory.total: integer
      literals that a double holds exactly. Other text is reported as ValueError, which
      is what Python does except for fractional, exponent and huge literals (outside
      this model).\<close>
  "py_float_integral tok =
     (case py_int tok of
        None \<Rightarrow> Inl ValueError
      | Some n \<Rightarrow> if \<bar>n\<bar> < 2 ^ 53 then Inr n else Inl ValueError)"

definition parse_gpu_line :: "string \<Rightarrow> py_error + gpu_sample option" where
  \<comment> \<open>one pass of the loop over \<open>line_per_gpu\<close>; \<open>None\<close> is the \<open>continue\<close>\<close>
  "parse_gpu_line line =
     (let values = py_split '','' line
      in if length values = 1 then Inr None
         else
           (case py_index values 0 of Inl e \<Rightarrow> Inl e | Inr v0 \<Rightarrow>
           (case py_index values 1 of Inl e \<Rightarrow> Inl e | Inr v1 \<Rightarrow>
           (case py_index values 2 of Inl e \<Rightarrow> Inl e | Inr v2 \<Rightarrow>
           (case py_index (py_split '' '' v2) 1 of Inl e \<Rightarrow> Inl e | Inr tok \<Rightarrow>
           (case py_float_integral tok of Inl e \<Rightarrow> Inl e | Inr x \<Rightarrow>
              Inr (Some \<lparr>util = py_replace '' '' [] v0,
                         used_mem = py_replace '' '' [] v1,
                         total_mem = py_str_int (mib_to_gib x)\<rparr>)))))))"

fun parse_gpu_lines :: "string list \<Rightarrow> py_error + gpu_sample list" where
  "parse_gpu_lines [] = Inr []"
| "parse_gpu_lines (l # ls) =
     (case parse_gpu_line l of
        Inl e \<Rightarrow> Inl e
      | Inr res \<Rightarrow>
          (case parse_gpu_lines ls of
             Inl e \<Rightarrow> Inl e
           | Inr rest \<Rightarrow> Inr (case res of None \<Rightarrow> rest | Some g \<Rightarrow> g # rest)))"

definition parse_gpu_output :: "string \<Rightarrow> py_error + gpu_sample list" where
  \<comment> \<open>\<open>split("\\n")[1:]\<close> drops the CSV header\<close>
  "parse_gpu_output out = parse_gpu_lines (drop 1 (py_split [CHR 0x0A] out))"

definition parse_file_id :: "string \<Rightarrow> py_error + int" where
  \<comment> \<open>\<open>int(file.split("_")[1].split(".log")[0])\<close>\<close>
  "parse_file_id file =
     (case py_index (py_split ''_'' file) 1 of Inl e \<Rightarrow> Inl e | Inr t \<Rightarrow>
     (case py_index (py_split ''.log'' t) 0 of Inl e \<Rightarrow> Inl e | Inr f \<Rightarrow>
     (case py_int f of None \<Rightarrow> Inl ValueError | Some n \<Rightarrow> Inr n)))"

fun parse_file_ids :: "string list \<Rightarrow> py_error + int list" where
  "parse_file_ids [] = Inr []"
| "parse_file_ids (file # files) =
     (if 0 < length file then
        (case parse_file_id file of
           Inl e \<Rightarrow> Inl e
         | Inr n \<Rightarrow> (case parse_file_ids files of Inl e \<Rightarrow> Inl e | Inr ns \<Rightarrow> Inr (n # ns)))
      else parse_file_ids files)"

definition list_file_ids :: "string \<Rightarrow> py_error + int list" where
  "list_file_ids out =
     (case parse_file_ids (py_split [CHR 0x0A] out) of
        Inl e \<Rightarrow> Inl e
      | Inr ids \<Rightarrow> Inr (sort ids))"

definition extract_last_line :: "string \<Rightarrow> string" where
  \<comment> \<open>\<open>MachineMonitor.extract_last_line\<close> on the decoded text; \<open>[-1]\<close> of a split
      is its last piece, and a split is never empty\<close>
  "extract_last_line decoded =
     (let last_line = py_strip (last (py_split [CHR 0x0D] decoded));
          last_line = last (py_split [CHR 0x0A] last_line)
      in py_replace [CHR 0x1B, CHR ''['', CHR ''A''] [] last_line)"

definition read_load :: "string \<Rightarrow> string" where
  \<comment> \<open>\<open>decoded.split(" ")[0].strip()\<close>\<close>
  "read_load decoded = py_strip (hd (py_split '' '' decoded))"

section \<open>The monitor's state and its environment\<close>

text \<open>
  \<open>self.comm\<close> is the dict the supervisor reads. The monitor stores into it one key at
  a time; every store, and every other effect that the properties below are about, is
  appended to a trace, in program order.
\<close>

record comm_dict =
  should_stop :: bool
  result :: "(cell \<times> string) list \<times> string"
  load :: string
  gpu :: "gpu_sample list"

datatype event =
    Write comm_dict         \<comment> \<open>a store into \<open>self.comm\<close>, with the dict after it\<close>
  | Sleep                   \<comment> \<open>\<open>time.sleep(self.sleep)\<close>\<close>
  | Connect                 \<comment> \<open>a call of \<open>client.connect\<close>\<close>
  | Shutdown_detected       \<comment> \<open>the print that precedes the archival of the logs\<close>
  | Get int                 \<comment> \<open>\<open>ftp_client.get\<close> of one group's log\<close>

record monitor =
  comm :: comm_dict
  exp_ids :: "int \<rightharpoonup> int"
  is_exp_ids_detected :: bool
  is_final_logs_downloaded :: bool
  trace :: "event list"

text \<open>
  What the outside world answers during one pass of a loop of \<open>run\<close>: the instances
  that discovery lists, the remote commands' decoded output (or the exception raised by
  the call), the file transfers' outcome, the local log files as \<open>readlines\<close> gives
  them, the clock, and whether the supervisor has asked the monitor to stop.
\<close>

record ec2_instance =
  tags :: "(string \<times> string) list"
  private_ip :: string

record remote =
  stop_requested :: bool
  instances :: "py_error + ec2_instance list"
  key_load :: "py_error option"
  connect :: "py_error option"
  loadavg :: "py_error + string"
  nvidia_smi :: "py_error + string"
  ls_logs :: "py_error + string"
  tail_log :: "int \<Rightarrow> py_error + string"
  open_sftp :: "py_error option"
  sftp_get :: "int \<Rightarrow> py_error option"
  local_lines :: "int \<Rightarrow> string list option"
  now :: string

definition emit :: "event \<Rightarrow> monitor \<Rightarrow> monitor" where
  "emit e m = m\<lparr>trace := trace m @ [e]\<rparr>"

definition store :: "comm_dict \<Rightarrow> monitor \<Rightarrow> monitor" where
  \<comment> \<open>one assignment \<open>self.comm[key] = value\<close>\<close>
  "store c m = emit (Write c) (m\<lparr>comm := c\<rparr>)"

definition write_lines :: "(cell \<times> string) list \<Rightarrow> string \<Rightarrow> monitor \<Rightarrow> monitor" where
  \<comment> \<open>\<open>_write\<close> of a list\<close>
  "write_lines res t m = store ((comm m)\<lparr>result := (res, t)\<rparr>) m"

definition write_text :: "string \<Rightarrow> string \<Rightarrow> monitor \<Rightarrow> monitor" where
  \<comment> \<open>\<open>_write\<close> of a str\<close>
  "write_text msg t m = write_lines [(StrCell ''??'', msg)] t m"

definition init_monitor :: "string \<Rightarrow> monitor" where
  \<comment> \<open>\<open>__init__\<close>; the argument is \<open>self.now()\<close>\<close>
  "init_monitor t =
     \<lparr>comm = \<lparr>should_stop = False,
              result = ([(StrCell ''?'', ''Connecting..'')], t),
              load = ''?'',
              gpu = [\<lparr>util = ''?'', used_mem = ''?'', total_mem = ''?''\<rparr>]\<rparr>,
      exp_ids = Map.empty,
      is_exp_ids_detected = False,
      is_final_logs_downloaded = False,
      trace = []\<rparr>"

section \<open>Discovery (aws\_utils.py)\<close>

fun get_tag_val :: "(string \<times> string) list \<Rightarrow> string \<Rightarrow> string" where
  "get_tag_val [] key = []"
| "get_tag_val ((k, v) # ts) key = (if k = key then v else get_tag_val ts key)"

definition get_instance_by_name :: "string \<Rightarrow> py_error + ec2_instance list \<Rightarrow> py_error + ec2_instance option" where
  \<comment> \<open>\<open>_get_instance_by_name\<close>; the second argument is what \<open>_collect_instances\<close> gives\<close>
  "get_instance_by_name name collected =
     (case collected of
        Inl e \<Rightarrow> Inl e
      | Inr inss \<Rightarrow>
          (let instances_by_name = filter (\<lambda>i. get_tag_val (tags i) ''Name'' = name) inss
           in if length instances_by_name = 0 then Inr None
              else if length instances_by_name = 1 then Inr (Some (instances_by_name ! 0))
              else Inl AssertionError))"

section \<open>Log download and archival (machine\_monitor.py)\<close>

fun fetch_all :: "remote \<Rightarrow> int list \<Rightarrow> monitor \<Rightarrow> py_error option \<times> monitor" where
  \<comment> \<open>the loop of \<open>download_logs\<close>: only SSHException is caught\<close>
  "fetch_all r [] m = (None, m)"
| "fetch_all r (g # gs) m =
     (case sftp_get r g of
        None \<Rightarrow> fetch_all r gs (emit (Get g) m)
      | Some e \<Rightarrow>
          if e = SSHException then fetch_all r gs (emit (Get g) m)
          else (Some e, emit (Get g) m))"

definition download_logs :: "remote \<Rightarrow> int list \<Rightarrow> monitor \<Rightarrow> py_error option \<times> monitor" where
  \<comment> \<open>\<open>open_sftp\<close>, then the loop; the local directory and the removal of the old
      local copies are left to the environment (\<open>local_lines\<close>)\<close>
  "download_logs r group_ids m =
     (case open_sftp r of
        Some e \<Rightarrow> (Some e, m)
      | None \<Rightarrow> fetch_all r group_ids m)"

definition download_logs_before_shutdown ::
  "string \<Rightarrow> remote \<Rightarrow> int list \<Rightarrow> string \<Rightarrow> monitor \<Rightarrow> py_error option \<times> monitor" where
  \<comment> \<open>the first argument is the constant \<open>SHUTDOWN_MESSAGE\<close> of the launch module\<close>
  "download_logs_before_shutdown shutdown_message r group_ids group_zero_line m =
     (if py_in shutdown_message group_zero_line \<and> \<not> is_final_logs_downloaded m
      then download_logs r group_ids
             (emit Shutdown_detected (m\<lparr>is_final_logs_downloaded := True\<rparr>))
      else (None, m))"

fun find_exp_id :: "string list \<Rightarrow> py_error + int option" where
  \<comment> \<open>the scan of \<open>_initial_detect_ids\<close> over the lines given: stops at the first id\<close>
  "find_exp_id [] = Inr None"
| "find_exp_id (l # ls) =
     (case extract_exp_id l of
        Inl e \<Rightarrow> Inl e
      | Inr (Some v) \<Rightarrow> Inr (Some v)
      | Inr None \<Rightarrow> find_exp_id ls)"

fun detect_ids :: "remote \<Rightarrow> int list \<Rightarrow> (int \<rightharpoonup> int) \<Rightarrow> (int \<rightharpoonup> int)" where
  \<comment> \<open>the loop of \<open>_initial_detect_ids\<close>: any exception skips the group\<close>
  "detect_ids r [] ids = ids"
| "detect_ids r (g # gs) ids =
     detect_ids r gs
       (case local_lines r g of
          None \<Rightarrow> ids
        | Some lines \<Rightarrow>
            (case find_exp_id (rev lines) of
               Inr (Some v) \<Rightarrow> ids(g \<mapsto> v)
             | Inr None \<Rightarrow> ids
             | Inl e \<Rightarrow> ids))"

definition initial_detect_ids :: "remote \<Rightarrow> int list \<Rightarrow> monitor \<Rightarrow> py_error option \<times> monitor" where
  "initial_detect_ids r group_ids m =
     (case download_logs r group_ids m of
        (Some e, m') \<Rightarrow> (Some e, m')
      | (None, m') \<Rightarrow> (None, m'\<lparr>exp_ids := detect_ids r group_ids (exp_ids m')\<rparr>))"

section \<open>The poll cycle and the run loop (machine\_monitor.py, run)\<close>

fun read_groups ::
  "string \<Rightarrow> remote \<Rightarrow> int list \<Rightarrow> int list \<Rightarrow> (cell \<times> string) list \<Rightarrow> monitor
     \<Rightarrow> (py_error + (cell \<times> string) list) \<times> monitor" where
  \<comment> \<open>the loop \<open>for group_id in file_ids\<close> that reads the last lines; the third
      argument is \<open>file_ids\<close>, the fourth what is left of it\<close>
  "read_groups sm r file_ids [] results m = (Inr results, m)"
| "read_groups sm r file_ids (g # gs) results m =
     (case tail_log r g of
        Inl e \<Rightarrow> (Inl e, m)
      | Inr decoded \<Rightarrow>
          (let last_line = extract_last_line decoded
           in case monitor_exp_id (exp_ids m) last_line g of
                Inl e \<Rightarrow> (Inl e, m)
              | Inr (ids, c) \<Rightarrow>
                  (let m1 = m\<lparr>exp_ids := ids\<rparr>; results1 = results @ [(c, last_line)]
                   in if g = 0 then
                        (case download_logs_before_shutdown sm r file_ids last_line m1 of
                           (Some e, m2) \<Rightarrow> (Inl e, m2)
                         | (None, m2) \<Rightarrow> read_groups sm r file_ids gs results1 m2)
                      else read_groups sm r file_ids gs results1 m1)))"

definition poll_groups :: "string \<Rightarrow> remote \<Rightarrow> int list \<Rightarrow> monitor \<Rightarrow> py_error option \<times> monitor" where
  \<comment> \<open>the second half of a pass of the inner loop, once \<open>file_ids\<close> is known: the
      initial detection of the ids, the last lines, \<open>_write(results)\<close> and the sleep\<close>
  "poll_groups sm r file_ids m2 =
     (case (if \<not> is_exp_ids_detected m2
            then initial_detect_ids r file_ids (m2\<lparr>is_exp_ids_detected := True\<rparr>)
            else (None, m2)) of
        (Some e, m3) \<Rightarrow> (Some e, m3)
      | (None, m3) \<Rightarrow>
          (case read_groups sm r file_ids file_ids [] m3 of
             (Inl e, m4) \<Rightarrow> (Some e, m4)
           | (Inr results, m4) \<Rightarrow> (None, emit Sleep (write_lines results (now r) m4))))"

definition poll_cycle :: "string \<Rightarrow> remote \<Rightarrow> monitor \<Rightarrow> py_error option \<times> monitor" where
  \<comment> \<open>one pass of the inner loop after its existence check, up to the sleep;
      \<open>Some e\<close> is the exception that leaves the \<open>try\<close>\<close>
  "poll_cycle sm r m =
     (case loadavg r of Inl e \<Rightarrow> (Some e, m) | Inr lout \<Rightarrow>
        (let m1 = store ((comm m)\<lparr>load := read_load lout\<rparr>) m
         in case nvidia_smi r of Inl e \<Rightarrow> (Some e, m1) | Inr gout \<Rightarrow>
           (case parse_gpu_output gout of Inl e \<Rightarrow> (Some e, m1) | Inr result_per_gpu \<Rightarrow>
             (let m2 = store ((comm m1)\<lparr>gpu := result_per_gpu\<rparr>) m1
              in case ls_logs r of Inl e \<Rightarrow> (Some e, m2) | Inr fout \<Rightarrow>
                (case list_file_ids fout of Inl e \<Rightarrow> (Some e, m2) | Inr file_ids \<Rightarrow>
                   poll_groups sm r file_ids m2)))))"

datatype exit_cause =
    Not_found               \<comment> \<open>no instance of this name when \<open>run\<close> starts\<close>
  | Instance_terminated     \<comment> \<open>the existence check of a loop finds no instance\<close>
  | Stopped                 \<comment> \<open>the outer loop ends on \<open>should_stop\<close>\<close>
  | Uncaught py_error       \<comment> \<open>an exception leaves \<open>run\<close>\<close>

datatype control =
    Starting                \<comment> \<open>at the first line of \<open>run\<close>\<close>
  | Connecting              \<comment> \<open>at the test of the outer \<open>while\<close>\<close>
  | Polling                 \<comment> \<open>at the test of the inner \<open>while\<close>\<close>
  | Terminated exit_cause

definition observe_stop :: "remote \<Rightarrow> monitor \<Rightarrow> monitor" where
  \<comment> \<open>the supervisor's handler may have stored \<open>should_stop\<close> by now\<close>
  "observe_stop r m =
     (if stop_requested r then m\<lparr>comm := (comm m)\<lparr>should_stop := True\<rparr>\<rparr> else m)"

fun step :: "string \<Rightarrow> string \<Rightarrow> remote \<Rightarrow> control \<times> monitor \<Rightarrow> control \<times> monitor" where
  \<comment> \<open>one pass of \<open>run\<close> from one loop test to the next; the arguments are
      \<open>SHUTDOWN_MESSAGE\<close>, the monitor's name and the environment's answers\<close>
  "step sm name r (Terminated c, m) = (Terminated c, m)"
| "step sm name r (Starting, m) =
     (case get_instance_by_name name (instances r) of
        Inl e \<Rightarrow> (Terminated (Uncaught e), m)
      | Inr None \<Rightarrow>
          (Terminated Not_found, write_text ''ERROR: could not find the instance'' (now r) m)
      | Inr (Some i) \<Rightarrow>
          (let m1 = write_text ''Connecting...'' (now r) m
           in case key_load r of
                Some e \<Rightarrow> (Terminated (Uncaught e), m1)
              | None \<Rightarrow> (Connecting, m1)))"
| "step sm name r (Connecting, m) =
     (let m0 = observe_stop r m
      in if should_stop (comm m0) then (Terminated Stopped, m0)
         else
           (case get_instance_by_name name (instances r) of
              Inl e \<Rightarrow> (Terminated (Uncaught e), m0)
            | Inr None \<Rightarrow>
                (Terminated Instance_terminated,
                 write_text ''My instance terminated, exiting!'' (now r) m0)
            | Inr (Some i) \<Rightarrow>
                (case connect r of
                   Some e \<Rightarrow> (Connecting, write_text ''Could not connect!'' (now r) (emit Connect m0))
                 | None \<Rightarrow> (Polling, write_text ''DONE, connected!'' (now r) (emit Connect m0)))))"
| "step sm name r (Polling, m) =
     (let m0 = observe_stop r m
      in if should_stop (comm m0) then (Connecting, m0)
         else
           (case get_instance_by_name name (instances r) of
              Inl e \<Rightarrow> (Connecting, write_text ''Could not connect!'' (now r) m0)
            | Inr None \<Rightarrow>
                (Terminated Instance_terminated,
                 write_text ''My instance terminated, exiting!'' (now r) m0)
            | Inr (Some i) \<Rightarrow>
                (case poll_cycle sm r m0 of
                   (Some e, m1) \<Rightarrow> (Connecting, write_text ''Could not connect!'' (now r) m1)
                 | (None, m1) \<Rightarrow> (Polling, m1))))"

fun run_steps :: "string \<Rightarrow> string \<Rightarrow> remote list \<Rightarrow> control \<times> monitor \<Rightarrow> control \<times> monitor" where
  \<comment> \<open>\<open>run\<close> against the answers of the environment, one record for each loop pass\<close>
  "run_steps sm name [] w = w"
| "run_steps sm name (r # rs) w = run_steps sm name rs (step sm name r w)"

section \<open>The supervisor (aws.py, monitor)\<close>

fun all_gpus_same_memory_from :: "string \<Rightarrow> gpu_sample list \<Rightarrow> bool" where
  \<comment> \<open>the loop of \<open>_all_gpus_same_memory\<close>\<close>
  "all_gpus_same_memory_from first_mem [] = True"
| "all_gpus_same_memory_from first_mem (rec # recs) =
     (if first_mem \<noteq> total_mem rec then False else all_gpus_same_memory_from first_mem recs)"

definition all_gpus_same_memory :: "gpu_sample list \<Rightarrow> py_error + bool" where
  "all_gpus_same_memory received =
     (case py_index received 0 of
        Inl e \<Rightarrow> Inl e
      | Inr first \<Rightarrow> Inr (all_gpus_same_memory_from (total_mem first) received))"

definition make_gpu_fields :: "gpu_sample list \<Rightarrow> py_error + (string \<times> string)" where
  "make_gpu_fields received =
     (case all_gpus_same_memory received of
        Inl e \<Rightarrow> Inl e
      | Inr all_same \<Rightarrow>
          (let loads = map util received;
               mems = map (\<lambda>g. if all_same then used_mem g
                                else used_mem g @ '' /'' @ total_mem g @ ''G'') received;
               memory = py_join '','' mems
           in if all_same then
                (case py_index received 0 of
                   Inl e \<Rightarrow> Inl e
                 | Inr first \<Rightarrow> Inr (py_join '','' loads, memory @ '' /'' @ total_mem first @ ''G''))
              else Inr (py_join '','' loads, memory)))"

text \<open>
  The supervisor's \<open>threads\<close> dict, in insertion order. A monitor object is identified
  by the number of monitors constructed before it.
\<close>

record supervisor =
  threads :: "(string \<times> nat) list"
  constructed :: "string list"

definition get_machines :: "ec2_instance list \<Rightarrow> (string \<times> string) list" where
  \<comment> \<open>the dict comprehension of \<open>get_machines\<close>: a later instance of the same name
      overwrites the address and keeps the key's place\<close>
  "get_machines inss =
     foldl (\<lambda>machines ins.
              AList.update (get_tag_val (tags ins) ''Name'') (private_ip ins) machines)
           [] inss"

fun launch_new :: "string list \<Rightarrow> supervisor \<Rightarrow> supervisor" where
  \<comment> \<open>the loop that constructs and starts a monitor for every name not in \<open>threads\<close>\<close>
  "launch_new [] s = s"
| "launch_new (name # names) s =
     launch_new names
       (if map_of (threads s) name = None
        then s\<lparr>threads := threads s @ [(name, length (constructed s))],
               constructed := constructed s @ [name]\<rparr>
        else s)"

definition reconcile :: "ec2_instance list \<Rightarrow> supervisor \<Rightarrow> supervisor" where
  \<comment> \<open>one pass of the supervisor's loop, up to the table\<close>
  "reconcile inss s =
     (let machines = get_machines inss;
          s1 = launch_new (map fst machines) s;
          to_remove = filter (\<lambda>name. map_of machines name = None) (map fst (threads s1))
      in s1\<lparr>threads := foldl (\<lambda>t remove. AList.delete remove t) (threads s1) to_remove\<rparr>)"

definition init_supervisor :: supervisor where
  "init_supervisor = \<lparr>threads = [], constructed = []\<rparr>"

section \<open>Observations on a trace\<close>

fun writes :: "event list \<Rightarrow> comm_dict list" where
  \<comment> \<open>the successive contents of \<open>self.comm\<close> that a reader can find\<close>
  "writes [] = []"
| "writes (Write c # es) = c # writes es"
| "writes (e # es) = writes es"

definition archive_runs :: "event list \<Rightarrow> nat" where
  \<comment> \<open>how many times \<open>download_logs_before_shutdown\<close> has started the download\<close>
  "archive_runs tr = count_list tr Shutdown_detected"

definition archived :: "monitor \<Rightarrow> bool" where
  \<comment> \<open>the flag \<open>is_final_logs_downloaded\<close> counts the archival runs\<close>
  "archived m = (archive_runs (trace m) = (if is_final_logs_downloaded m then 1 else 0))"

section \<open>Example environments\<close>

definition gpu_csv :: string where
  "gpu_csv = ''utilization.gpu [%], utilization.memory [%], memory.total [MiB]'' @ [CHR 0x0A]
             @ ''12 %, 34 %, 11441 MiB'' @ [CHR 0x0A]"

definition answers :: "string \<Rightarrow> string \<Rightarrow> string \<Rightarrow> remote" where
  \<comment> \<open>a machine named \<open>m1\<close> that answers every command: the load output, the last
      line of its one log \<open>experiment_0.log\<close>, and the time\<close>
  "answers lout line t =
     \<lparr>stop_requested = False,
      instances = Inr [\<lparr>tags = [(''Name'', ''m1'')], private_ip = ''10.0.0.1''\<rparr>],
      key_load = None,
      connect = None,
      loadavg = Inr lout,
      nvidia_smi = Inr gpu_csv,
      ls_logs = Inr (''experiment_0.log'' @ [CHR 0x0A]),
      tail_log = (\<lambda>g. Inr line),
      open_sftp = None,
      sftp_get = (\<lambda>g. None),
      local_lines = (\<lambda>g. Some []),
      now = t\<rparr>"

section \<open>Splitting and membership\<close>

lemma py_split_from_nonempty: "py_split_from sep cur s \<noteq> []"
  by (induction sep cur s rule: py_split_from.induct) auto

lemma py_split_from_length:
  "sep \<noteq> [] \<Longrightarrow> (2 \<le> length (py_split_from sep cur s)) = py_in sep s"
proof (induction sep cur s rule: py_split_from.induct)
  case (1 sep cur)
  then show ?case by simp
next
  case (2 sep cur c cs)
  show ?case
  proof (cases "starts_with sep (c # cs)")
    case True
    have "1 \<le> length (py_split_from sep [] (drop (length sep - 1) cs))"
      using py_split_from_nonempty [of sep "[]" "drop (length sep - 1) cs"]
      by (cases "py_split_from sep [] (drop (length sep - 1) cs)") auto
    with True 2 show ?thesis by simp
  next
    case False
    with 2 show ?thesis by simp
  qed
qed

lemma py_in_single: "py_in [q] s = (q \<in> set s)"
  by (induction s) auto

lemmas evaluate =
  py_split_def py_index_def py_int_def py_strip_def py_isspace_def digits_value_def
  py_isdigit_def extract_exp_id_def id_announcement_def monitor_exp_id_def exp_id_known_def
  is_not_None_def
  parse_gpu_output_def parse_gpu_line_def py_float_integral_def mib_to_gib_def py_str_int_def
  nat_digits.simps list_file_ids_def parse_file_id_def extract_last_line_def read_load_def
  emit_def store_def write_lines_def write_text_def init_monitor_def get_instance_by_name_def
  download_logs_def download_logs_before_shutdown_def initial_detect_ids_def poll_groups_def
  poll_cycle_def observe_stop_def answers_def gpu_csv_def Let_def

section \<open>The lookup of the experiment id\<close>

text \<open>
  With an empty \<open>exp_ids\<close> and a line that announces nothing, the chained comparison is
  false and \<open>monitor_exp_id\<close> returns the placeholder.
\<close>

theorem exp_id_known_false_on_empty:
  "\<not> exp_id_known Map.empty 0 \<and>
   map_sum id snd (monitor_exp_id Map.empty ''epoch 3'' 0) = Inr (StrCell ''?'')"
  by (simp add: exp_id_known_def is_not_None_def monitor_exp_id_def extract_exp_id_def
      id_announcement_def)

text \<open>
  Claim C3, as the code has it: the chained comparison
  \<open>group_id in self.exp_ids is not None\<close> is the membership test \<open>group_id in self.exp_ids\<close>
  (the second comparison, of the dict with \<open>None\<close>, is always true). So
  \<open>monitor_exp_id\<close> returns the placeholder \<open>"?"\<close> exactly when the line announces no id
  and the group has no entry yet, and never fails with a KeyError.
\<close>

theorem exp_id_known_is_membership:
  "(exp_id_known ids group_id \<longleftrightarrow> group_id \<in> dom ids) \<and>
   (map_sum id snd (monitor_exp_id ids line group_id) = Inr (StrCell ''?'')
      \<longleftrightarrow> extract_exp_id line = Inr None \<and> ids group_id = None)"
  by (cases "extract_exp_id line")
     (auto simp: exp_id_known_def is_not_None_def monitor_exp_id_def Let_def
        split: option.splits)

section \<open>Extraction of the experiment id\<close>

text \<open>
  A line with the announcement and a single quote character after it (fewer than two)
  raises nothing: the text after the quote is the number.
\<close>

theorem extract_exp_id_one_quote:
  "py_in id_announcement (''Started run with ID '' @ [CHR 0x22] @ ''7160'') \<and>
   count_list (''Started run with ID '' @ [CHR 0x22] @ ''7160'') (CHR 0x22) = 1 \<and>
   extract_exp_id (''Started run with ID '' @ [CHR 0x22] @ ''7160'') = Inr (Some 7160)"
  by (simp add: evaluate)

text \<open>
  Claim C10, as the code has it: for a line that contains the announcement,
  \<open>_extract_exp_id\<close> raises IndexError exactly when the text between the first
  announcement and the next one (or the end of the line) has no quote character; with
  at least one quote it returns what \<open>int\<close> makes of the text after the first quote up to
  the second quote or the end, and \<open>None\<close> where \<open>int\<close> fails. Only the conversion is
  guarded.
\<close>

theorem extract_exp_id_partial:
  assumes "py_in id_announcement line"
  shows "extract_exp_id line =
           (let rest = py_split id_announcement line ! 1
            in if CHR 0x22 \<in> set rest then Inr (py_int (py_split [CHR 0x22] rest ! 1))
               else Inl IndexError)"
proof -
  have ann: "id_announcement \<noteq> []" by (simp add: id_announcement_def)
  have len: "2 \<le> length (py_split id_announcement line)"
    using assms py_split_from_length [OF ann, of "[]" line] by (simp add: py_split_def)
  have q: "(2 \<le> length (py_split [CHR 0x22] t)) = (CHR 0x22 \<in> set t)" for t
    using py_split_from_length [of "[CHR 0x22]" "[]" t] by (simp add: py_split_def py_in_single)
  show ?thesis
    using assms len q [of "py_split id_announcement line ! 1"]
    by (auto simp: extract_exp_id_def py_index_def Let_def)
qed

theorem extract_exp_id_partial_witness:
  "py_in id_announcement ''Started run with ID 7160'' \<and>
   extract_exp_id ''Started run with ID 7160'' = Inl IndexError"
proof -
  have h: "py_in id_announcement ''Started run with ID 7160''"
    by (simp add: id_announcement_def)
  show ?thesis
    using h extract_exp_id_partial [OF h]
    by (simp add: id_announcement_def py_split_def Let_def)
qed

section \<open>The GPU row\<close>

text \<open>
  The row of the specification does not give the texts \<open>"12 %"\<close> and \<open>"34 %"\<close>: the
  spaces are removed.
\<close>

theorem gpu_row_keeps_no_space:
  "parse_gpu_line ''12 %, 34 %, 11441 MiB'' \<noteq>
     Inr (Some \<lparr>util = ''12 %'', used_mem = ''34 %'', total_mem = ''11''\<rparr>)"
  by (simp add: evaluate)

text \<open>
  Claim C8, as the code has it: from the row \<open>"12 %, 34 %, 11441 MiB"\<close> the monitor
  extracts the utilization \<open>"12%"\<close> and the used memory \<open>"34%"\<close>, every space removed,
  and the total memory \<open>"11"\<close>: the MiB value divided by 1024 and rounded to the nearest
  integer, which is never further than half a GiB from the value.
\<close>

theorem gpu_row_parsed:
  "parse_gpu_line ''12 %, 34 %, 11441 MiB'' =
     Inr (Some \<lparr>util = ''12%'', used_mem = ''34%'', total_mem = ''11''\<rparr>) \<and>
   parse_gpu_output gpu_csv = Inr [\<lparr>util = ''12%'', used_mem = ''34%'', total_mem = ''11''\<rparr>] \<and>
   mib_to_gib 11441 = 11 \<and>
   2 * \<bar>1024 * mib_to_gib n - n\<bar> \<le> 1024"
proof -
  have "2 * \<bar>1024 * mib_to_gib n - n\<bar> \<le> 1024"
    unfolding mib_to_gib_def Let_def by presburger
  then show ?thesis by (simp add: evaluate)
qed

section \<open>Reconciliation\<close>

text \<open>
  Claim C7: for the discovery results \<open>[A, B]\<close> on one pass of the supervisor's loop and
  \<open>[B, C]\<close> on the next, with three different names, the first pass constructs one
  monitor for \<open>A\<close> and one for \<open>B\<close>; the second constructs exactly one more, for \<open>C\<close>,
  keeps the monitor object of \<open>B\<close> and drops the entry of \<open>A\<close> from \<open>threads\<close>.
\<close>

theorem reconcile_two_ticks:
  assumes "distinct [A, B, C]"
  shows "(let s1 = reconcile [\<lparr>tags = [(''Name'', A)], private_ip = ipA\<rparr>,
                              \<lparr>tags = [(''Name'', B)], private_ip = ipB\<rparr>] init_supervisor;
              s2 = reconcile [\<lparr>tags = [(''Name'', B)], private_ip = ipB'\<rparr>,
                              \<lparr>tags = [(''Name'', C)], private_ip = ipC\<rparr>] s1
          in threads s1 = [(A, 0), (B, 1)] \<and> constructed s1 = [A, B] \<and>
             threads s2 = [(B, 1), (C, 2)] \<and> constructed s2 = [A, B, C])"
  using assms
  by (auto simp: reconcile_def get_machines_def init_supervisor_def Let_def)

theorem reconcile_two_ticks_witness:
  "distinct [''a'', ''b'', ''c''] \<and>
   (let s1 = reconcile [\<lparr>tags = [(''Name'', ''a'')], private_ip = ''10.0.0.1''\<rparr>,
                        \<lparr>tags = [(''Name'', ''b'')], private_ip = ''10.0.0.2''\<rparr>] init_supervisor;
        s2 = reconcile [\<lparr>tags = [(''Name'', ''b'')], private_ip = ''10.0.0.2''\<rparr>,
                        \<lparr>tags = [(''Name'', ''c'')], private_ip = ''10.0.0.3''\<rparr>] s1
    in threads s1 = [(''a'', 0), (''b'', 1)] \<and> constructed s1 = [''a'', ''b''] \<and>
       threads s2 = [(''b'', 1), (''c'', 2)] \<and> constructed s2 = [''a'', ''b'', ''c''])"
proof -
  have h: "distinct [''a'', ''b'', ''c'']" by simp
  show ?thesis
    using h reconcile_two_ticks [OF h, of "''10.0.0.1''" "''10.0.0.2''" "''10.0.0.2''" "''10.0.0.3''"]
    by simp
qed

section \<open>What the parts of a poll cycle leave alone\<close>

lemma writes_append: "writes (a @ b) = writes a @ writes b"
  by (induction a rule: writes.induct) auto

lemma archive_runs_append: "archive_runs (a @ b) = archive_runs a + archive_runs b"
  by (induction a) (auto simp: archive_runs_def)

lemma fetch_all_keeps:
  "comm (snd (fetch_all r gs m)) = comm m"
  "is_final_logs_downloaded (snd (fetch_all r gs m)) = is_final_logs_downloaded m"
  "writes (trace (snd (fetch_all r gs m))) = writes (trace m)"
  "archive_runs (trace (snd (fetch_all r gs m))) = archive_runs (trace m)"
  by (induction gs arbitrary: m;
      simp add: emit_def writes_append archive_runs_append archive_runs_def split: option.splits)+

lemma download_logs_keeps:
  "comm (snd (download_logs r gs m)) = comm m"
  "is_final_logs_downloaded (snd (download_logs r gs m)) = is_final_logs_downloaded m"
  "writes (trace (snd (download_logs r gs m))) = writes (trace m)"
  "archive_runs (trace (snd (download_logs r gs m))) = archive_runs (trace m)"
  by (simp_all add: download_logs_def fetch_all_keeps split: option.splits)

lemma download_logs_before_shutdown_keeps:
  "comm (snd (download_logs_before_shutdown sm r gs line m)) = comm m"
  "writes (trace (snd (download_logs_before_shutdown sm r gs line m))) = writes (trace m)"
  by (simp_all add: download_logs_before_shutdown_def download_logs_keeps emit_def writes_append)

lemma download_logs_before_shutdown_flag:
  "is_final_logs_downloaded (snd (download_logs_before_shutdown sm r gs line m)) =
     (is_final_logs_downloaded m \<or> py_in sm line)"
  by (auto simp: download_logs_before_shutdown_def download_logs_keeps emit_def)

lemma download_logs_before_shutdown_runs:
  "archive_runs (trace (snd (download_logs_before_shutdown sm r gs line m))) =
     archive_runs (trace m) + (if py_in sm line \<and> \<not> is_final_logs_downloaded m then 1 else 0)"
  by (simp add: download_logs_before_shutdown_def download_logs_keeps emit_def
      archive_runs_append, simp add: archive_runs_def)

lemma initial_detect_ids_invariant:
  assumes upd: "\<And>m ids. P m \<Longrightarrow> P (m\<lparr>exp_ids := ids\<rparr>)"
    and dl: "\<And>gs m. P m \<Longrightarrow> P (snd (download_logs r gs m))"
    and "P m"
  shows "P (snd (initial_detect_ids r gs m))"
proof -
  obtain e m' where h: "download_logs r gs m = (e, m')" by (cases "download_logs r gs m")
  have "P m'" using dl [OF \<open>P m\<close>, of gs] h by simp
  then show ?thesis using h upd by (cases e) (simp_all add: initial_detect_ids_def)
qed

lemma read_groups_invariant:
  assumes upd: "\<And>m ids. P m \<Longrightarrow> P (m\<lparr>exp_ids := ids\<rparr>)"
    and dl: "\<And>gs line m. P m \<Longrightarrow> P (snd (download_logs_before_shutdown sm r gs line m))"
    and "P m"
  shows "P (snd (read_groups sm r file_ids gs res m))"
  using \<open>P m\<close>
proof (induction gs arbitrary: res m)
  case Nil
  then show ?case by simp
next
  case (Cons g gs)
  show ?case
  proof (cases "tail_log r g")
    case (Inl e)
    with Cons.prems show ?thesis by simp
  next
    case (Inr decoded)
    show ?thesis
    proof (cases "monitor_exp_id (exp_ids m) (extract_last_line decoded) g")
      case (Inl e)
      with Inr Cons.prems show ?thesis by simp
    next
      case found: (Inr p)
      obtain ids c where p: "p = (ids, c)" by (cases p)
      have m1: "P (m\<lparr>exp_ids := ids\<rparr>)" using Cons.prems by (rule upd)
      show ?thesis
      proof (cases "g = 0")
        case False
        with Inr found p Cons.IH [OF m1] show ?thesis by simp
      next
        case True
        obtain e m2 where d: "download_logs_before_shutdown sm r file_ids
            (extract_last_line decoded) (m\<lparr>exp_ids := ids\<rparr>) = (e, m2)"
          by (cases "download_logs_before_shutdown sm r file_ids
            (extract_last_line decoded) (m\<lparr>exp_ids := ids\<rparr>)")
        have m2: "P m2" using dl [OF m1, of file_ids "extract_last_line decoded"] d by simp
        show ?thesis
        proof (cases e)
          case None
          with True Inr found p d Cons.IH [OF m2] show ?thesis by simp
        next
          case (Some err)
          with True Inr found p d m2 show ?thesis by simp
        qed
      qed
    qed
  qed
qed

lemma poll_groups_unfold:
  "poll_groups sm r file_ids m =
     (case (if \<not> is_exp_ids_detected m
            then initial_detect_ids r file_ids (m\<lparr>is_exp_ids_detected := True\<rparr>)
            else (None, m)) of
        (Some e, m3) \<Rightarrow> (Some e, m3)
      | (None, m3) \<Rightarrow>
          (case read_groups sm r file_ids file_ids [] m3 of
             (Inl e, m4) \<Rightarrow> (Some e, m4)
           | (Inr results, m4) \<Rightarrow> (None, emit Sleep (write_lines results (now r) m4))))"
  by (simp add: poll_groups_def)

lemma poll_groups_invariant:
  assumes upd: "\<And>m ids. P m \<Longrightarrow> P (m\<lparr>exp_ids := ids\<rparr>)"
    and det: "\<And>m. P m \<Longrightarrow> P (m\<lparr>is_exp_ids_detected := True\<rparr>)"
    and dl: "\<And>gs m. P m \<Longrightarrow> P (snd (download_logs r gs m))"
    and dlbs: "\<And>gs line m. P m \<Longrightarrow> P (snd (download_logs_before_shutdown sm r gs line m))"
    and wr: "\<And>m res. P m \<Longrightarrow> P (emit Sleep (write_lines res (now r) m))"
    and "P m"
  shows "P (snd (poll_groups sm r file_ids m))"
proof -
  define d where "d = (if \<not> is_exp_ids_detected m
            then initial_detect_ids r file_ids (m\<lparr>is_exp_ids_detected := True\<rparr>)
            else (None, m))"
  have pd: "P (snd d)"
    unfolding d_def using initial_detect_ids_invariant [of P r, OF upd dl det [OF \<open>P m\<close>]] \<open>P m\<close>
    by simp
  obtain e m3 where d: "d = (e, m3)" by (cases d)
  have m3: "P m3" using pd d by simp
  obtain res m4 where rg: "read_groups sm r file_ids file_ids [] m3 = (res, m4)"
    by (cases "read_groups sm r file_ids file_ids [] m3")
  have m4: "P m4"
    using read_groups_invariant [of P sm r, OF upd dlbs m3, of file_ids file_ids "[]"] rg by simp
  show ?thesis
    using d rg m3 m4 wr unfolding poll_groups_unfold d_def [symmetric]
    by (cases e; cases res) simp_all
qed

lemma poll_cycle_invariant:
  assumes upd: "\<And>m ids. P m \<Longrightarrow> P (m\<lparr>exp_ids := ids\<rparr>)"
    and det: "\<And>m. P m \<Longrightarrow> P (m\<lparr>is_exp_ids_detected := True\<rparr>)"
    and dl: "\<And>gs m. P m \<Longrightarrow> P (snd (download_logs r gs m))"
    and dlbs: "\<And>gs line m. P m \<Longrightarrow> P (snd (download_logs_before_shutdown sm r gs line m))"
    and wr: "\<And>m res. P m \<Longrightarrow> P (emit Sleep (write_lines res (now r) m))"
    and ld: "\<And>m l. P m \<Longrightarrow> P (store ((comm m)\<lparr>load := l\<rparr>) m)"
    and gp: "\<And>m g. P m \<Longrightarrow> P (store ((comm m)\<lparr>gpu := g\<rparr>) m)"
    and "P m"
  shows "P (snd (poll_cycle sm r m))"
proof -
  have a: "P (snd (poll_groups sm r file_ids x))" if "P x" for file_ids x
    using poll_groups_invariant [of P r sm, OF upd det dl dlbs wr that] by simp
  show ?thesis
    using \<open>P m\<close> ld gp a
    by (simp add: poll_cycle_def Let_def split: sum.splits)
qed

lemma step_invariant:
  assumes obs: "\<And>x. P x \<Longrightarrow> P (observe_stop r x)"
    and wt: "\<And>x msg. P x \<Longrightarrow> P (write_text msg (now r) x)"
    and cn: "\<And>x. P x \<Longrightarrow> P (emit Connect x)"
    and pc: "\<And>x. P x \<Longrightarrow> P (snd (poll_cycle sm r x))"
    and "P m"
  shows "P (snd (step sm name r (c, m)))"
proof (cases c)
  case Starting
  then show ?thesis using \<open>P m\<close> wt by (simp add: Let_def split: sum.splits option.splits)
next
  case Connecting
  then show ?thesis
    using \<open>P m\<close> obs wt cn by (simp add: Let_def split: sum.splits option.splits)
next
  case Polling
  obtain e m1 where p: "poll_cycle sm r (observe_stop r m) = (e, m1)"
    by (cases "poll_cycle sm r (observe_stop r m)")
  have "P m1" using pc [OF obs [OF \<open>P m\<close>]] p by simp
  then show ?thesis
    using Polling \<open>P m\<close> obs wt p
    by (cases e) (simp_all add: Let_def split: sum.splits option.splits)
next
  case (Terminated x)
  then show ?thesis using \<open>P m\<close> by simp
qed

lemma run_steps_invariant:
  assumes "\<And>r c x. P x \<Longrightarrow> P (snd (step sm name r (c, x)))" and "P m"
  shows "P (snd (run_steps sm name rs (c, m)))"
  using \<open>P m\<close>
proof (induction rs arbitrary: c m)
  case Nil
  then show ?case by simp
next
  case (Cons r rs)
  obtain c' m' where s: "step sm name r (c, m) = (c', m')" by (cases "step sm name r (c, m)")
  have "P m'" using assms(1) [OF Cons.prems, of r c] s by simp
  from Cons.IH [OF this] s show ?case by simp
qed

section \<open>The stores of a poll cycle\<close>

text \<open>
  Two cycles of a healthy machine. After the second cycle has stored its load, the dict
  holds the load of the second cycle with the lines and the timestamp of the first.
\<close>

theorem comm_mixes_two_cycles:
  "\<lparr>should_stop = False, result = ([(StrCell ''?'', ''epoch 1'')], ''t1''), load = ''0.90'',
    gpu = [\<lparr>util = ''12%'', used_mem = ''34%'', total_mem = ''11''\<rparr>]\<rparr>
   \<in> set (writes (trace (snd (run_steps ''SHUTDOWN'' ''m1''
          [answers ''0.10 0.2'' ''epoch 1'' ''t1'', answers ''0.90 0.2'' ''epoch 2'' ''t2'']
          (Polling, init_monitor ''t0'')))))"
  by (simp add: evaluate)

lemma poll_groups_writes:
  assumes "poll_groups sm r file_ids m = (None, m')"
  shows "\<exists>res. writes (trace m') = writes (trace m) @ [(comm m)\<lparr>result := (res, now r)\<rparr>]
           \<and> comm m' = (comm m)\<lparr>result := (res, now r)\<rparr>"
proof -
  define d where "d = (if \<not> is_exp_ids_detected m
            then initial_detect_ids r file_ids (m\<lparr>is_exp_ids_detected := True\<rparr>)
            else (None, m))"
  obtain e m3 where d: "d = (e, m3)" by (cases d)
  have "comm (snd d) = comm m \<and> writes (trace (snd d)) = writes (trace m)"
    unfolding d_def
    using initial_detect_ids_invariant
      [of "\<lambda>x. comm x = comm m \<and> writes (trace x) = writes (trace m)" r
          "m\<lparr>is_exp_ids_detected := True\<rparr>" file_ids]
    by (simp add: download_logs_keeps)
  then have m3: "comm m3 = comm m \<and> writes (trace m3) = writes (trace m)"
    using d by simp
  obtain res m4 where rg: "read_groups sm r file_ids file_ids [] m3 = (res, m4)"
    by (cases "read_groups sm r file_ids file_ids [] m3")
  have m4: "comm m4 = comm m \<and> writes (trace m4) = writes (trace m)"
    using read_groups_invariant
      [of "\<lambda>x. comm x = comm m \<and> writes (trace x) = writes (trace m)" sm r m3
          file_ids file_ids "[]"] rg m3
    by (simp add: download_logs_before_shutdown_keeps)
  from assms d rg obtain results where
    r: "res = Inr results" "m' = emit Sleep (write_lines results (now r) m4)"
    unfolding poll_groups_unfold d_def [symmetric]
    by (cases e; cases res) auto
  have "writes (trace m') = writes (trace m) @ [(comm m)\<lparr>result := (results, now r)\<rparr>]
           \<and> comm m' = (comm m)\<lparr>result := (results, now r)\<rparr>"
    using r m4 by (simp add: emit_def write_lines_def store_def writes_append)
  then show ?thesis by blast
qed

text \<open>
  Claim C1, as the code has it: the monitor publishes nothing as a whole. A poll cycle
  that completes stores into the shared dict three times, one key each time: the load,
  then the GPU samples, then the lines with their timestamp. A reader that reads between
  two of these stores finds the load (and the GPU samples) of this cycle with the lines
  of the cycle before; the fields all come from one cycle only after the last store.
\<close>

theorem poll_cycle_stores:
  assumes "poll_cycle sm r m = (None, m')"
  shows "\<exists>lout gout g res.
           loadavg r = Inr lout \<and> nvidia_smi r = Inr gout \<and> parse_gpu_output gout = Inr g \<and>
           writes (trace m') = writes (trace m) @
             [(comm m)\<lparr>load := read_load lout\<rparr>,
              (comm m)\<lparr>load := read_load lout, gpu := g\<rparr>,
              (comm m)\<lparr>load := read_load lout, gpu := g, result := (res, now r)\<rparr>] \<and>
           comm m' = (comm m)\<lparr>load := read_load lout, gpu := g, result := (res, now r)\<rparr>"
proof -
  from assms obtain lout where l: "loadavg r = Inr lout"
    by (cases "loadavg r") (auto simp: poll_cycle_def)
  from assms l obtain gout where g: "nvidia_smi r = Inr gout"
    by (cases "nvidia_smi r") (auto simp: poll_cycle_def Let_def)
  from assms l g obtain gs where p: "parse_gpu_output gout = Inr gs"
    by (cases "parse_gpu_output gout") (auto simp: poll_cycle_def Let_def)
  from assms l g p obtain fout where f: "ls_logs r = Inr fout"
    by (cases "ls_logs r") (auto simp: poll_cycle_def Let_def)
  from assms l g p f obtain file_ids where i: "list_file_ids fout = Inr file_ids"
    by (cases "list_file_ids fout") (auto simp: poll_cycle_def Let_def)
  define m2 where "m2 = store ((comm m)\<lparr>load := read_load lout, gpu := gs\<rparr>)
                          (store ((comm m)\<lparr>load := read_load lout\<rparr>) m)"
  have pg: "poll_groups sm r file_ids m2 = (None, m')"
    using assms l g p f i by (simp add: poll_cycle_def Let_def m2_def store_def emit_def)
  have m2: "comm m2 = (comm m)\<lparr>load := read_load lout, gpu := gs\<rparr>"
    "writes (trace m2) = writes (trace m) @
        [(comm m)\<lparr>load := read_load lout\<rparr>, (comm m)\<lparr>load := read_load lout, gpu := gs\<rparr>]"
    by (simp_all add: m2_def store_def emit_def writes_append)
  from poll_groups_writes [OF pg] obtain res where
    "writes (trace m') = writes (trace m2) @ [(comm m2)\<lparr>result := (res, now r)\<rparr>]
           \<and> comm m' = (comm m2)\<lparr>result := (res, now r)\<rparr>" by blast
  with m2 l g p show ?thesis by auto
qed

theorem poll_cycle_stores_witness:
  "fst (poll_cycle ''SHUTDOWN'' (answers ''0.10 0.2'' ''epoch 1'' ''t1'') (init_monitor ''t0'')) = None \<and>
   writes (trace (snd (poll_cycle ''SHUTDOWN'' (answers ''0.10 0.2'' ''epoch 1'' ''t1'')
                         (init_monitor ''t0'')))) =
     [(comm (init_monitor ''t0''))\<lparr>load := ''0.10''\<rparr>,
      (comm (init_monitor ''t0''))\<lparr>load := ''0.10'',
         gpu := [\<lparr>util = ''12%'', used_mem = ''34%'', total_mem = ''11''\<rparr>]\<rparr>,
      (comm (init_monitor ''t0''))\<lparr>load := ''0.10'',
         gpu := [\<lparr>util = ''12%'', used_mem = ''34%'', total_mem = ''11''\<rparr>],
         result := ([(StrCell ''?'', ''epoch 1'')], ''t1'')\<rparr>]"
proof -
  define r where "r = answers ''0.10 0.2'' ''epoch 1'' ''t1''"
  define m where "m = init_monitor ''t0''"
  have n: "fst (poll_cycle ''SHUTDOWN'' r m) = None"
    by (simp add: r_def m_def evaluate)
  then have h: "poll_cycle ''SHUTDOWN'' r m = (None, snd (poll_cycle ''SHUTDOWN'' r m))"
    by (cases "poll_cycle ''SHUTDOWN'' r m") simp
  have c: "result (comm (snd (poll_cycle ''SHUTDOWN'' r m))) = ([(StrCell ''?'', ''epoch 1'')], ''t1'')"
    by (simp add: r_def m_def evaluate)
  have l: "loadavg r = Inr ''0.10 0.2''" "nvidia_smi r = Inr gpu_csv" "now r = ''t1''"
    by (simp_all add: r_def answers_def)
  have g: "parse_gpu_output gpu_csv = Inr [\<lparr>util = ''12%'', used_mem = ''34%'', total_mem = ''11''\<rparr>]"
    by (simp add: evaluate)
  have rl: "read_load ''0.10 0.2'' = ''0.10''" by (simp add: evaluate)
  from poll_cycle_stores [OF h] l g rl c
  have "writes (trace (snd (poll_cycle ''SHUTDOWN'' r m))) = writes (trace m) @
     [(comm m)\<lparr>load := ''0.10''\<rparr>,
      (comm m)\<lparr>load := ''0.10'', gpu := [\<lparr>util = ''12%'', used_mem = ''34%'', total_mem = ''11''\<rparr>]\<rparr>,
      (comm m)\<lparr>load := ''0.10'', gpu := [\<lparr>util = ''12%'', used_mem = ''34%'', total_mem = ''11''\<rparr>],
         result := ([(StrCell ''?'', ''epoch 1'')], ''t1'')\<rparr>]"
    by auto
  moreover have "writes (trace m) = []" by (simp add: m_def init_monitor_def)
  ultimately show ?thesis using n by (simp add: r_def m_def)
qed

section \<open>Archival of the logs\<close>

text \<open>
  Every transfer of the archival fails with an SSHException; the flag is true after the
  attempt.
\<close>

theorem flag_true_after_failed_transfer:
  "is_final_logs_downloaded
     (snd (download_logs_before_shutdown ''SHUTDOWN''
             ((answers ''0.10'' ''SHUTDOWN'' ''t1'')\<lparr>sftp_get := (\<lambda>g. Some SSHException)\<rparr>)
             [0] ''SHUTDOWN'' (init_monitor ''t0'')))"
  by (simp add: evaluate)

text \<open>
  Claim C2, as the code has it: \<open>download_logs_before_shutdown\<close> sets
  \<open>is_final_logs_downloaded\<close> before it starts the download, so after an attempt the
  flag is true whatever the transfers did (a transfer error included), and a later call
  that still sees the shutdown message does nothing: the archival is not retried.
\<close>

theorem flag_set_before_download:
  assumes "py_in sm line" "\<not> is_final_logs_downloaded m"
  shows "is_final_logs_downloaded (snd (download_logs_before_shutdown sm r gs line m)) \<and>
         download_logs_before_shutdown sm r' gs' line'
           (snd (download_logs_before_shutdown sm r gs line m)) =
         (None, snd (download_logs_before_shutdown sm r gs line m))"
proof -
  have f: "is_final_logs_downloaded (snd (download_logs_before_shutdown sm r gs line m))"
    using assms by (simp add: download_logs_before_shutdown_flag)
  then show ?thesis by (simp add: download_logs_before_shutdown_def)
qed

theorem flag_set_before_download_witness:
  "py_in ''SHUTDOWN'' ''SHUTDOWN now'' \<and> \<not> is_final_logs_downloaded (init_monitor ''t0'') \<and>
   fst (download_logs_before_shutdown ''SHUTDOWN''
     ((answers ''0.10'' ''SHUTDOWN now'' ''t2'')\<lparr>sftp_get := (\<lambda>g. Some SSHException)\<rparr>)
     [0] ''SHUTDOWN now''
     (snd (download_logs_before_shutdown ''SHUTDOWN''
        ((answers ''0.10'' ''SHUTDOWN now'' ''t1'')\<lparr>sftp_get := (\<lambda>g. Some SSHException)\<rparr>)
        [0] ''SHUTDOWN now'' (init_monitor ''t0'')))) = None"
proof -
  have h1: "py_in ''SHUTDOWN'' ''SHUTDOWN now''" by simp
  have h2: "\<not> is_final_logs_downloaded (init_monitor ''t0'')" by (simp add: init_monitor_def)
  show ?thesis
    using h1 h2
      flag_set_before_download [OF h1 h2,
        of "(answers ''0.10'' ''SHUTDOWN now'' ''t1'')\<lparr>sftp_get := (\<lambda>g. Some SSHException)\<rparr>" "[0]"
           "(answers ''0.10'' ''SHUTDOWN now'' ''t2'')\<lparr>sftp_get := (\<lambda>g. Some SSHException)\<rparr>" "[0]"
           "''SHUTDOWN now''"]
    by simp
qed

lemma archived_download_logs_before_shutdown:
  "archived m \<Longrightarrow> archived (snd (download_logs_before_shutdown sm r gs line m))"
  by (simp add: archived_def download_logs_before_shutdown_flag download_logs_before_shutdown_runs)

lemma archived_store: "archived m \<Longrightarrow> archived (store c m)"
  by (simp add: archived_def store_def emit_def archive_runs_append, simp add: archive_runs_def)

lemma archived_emit: "e \<noteq> Shutdown_detected \<Longrightarrow> archived m \<Longrightarrow> archived (emit e m)"
  by (simp add: archived_def emit_def archive_runs_append, simp add: archive_runs_def)

lemma archived_poll_cycle: "archived m \<Longrightarrow> archived (snd (poll_cycle sm r m))"
proof (rule poll_cycle_invariant [where P = archived])
  show "archived x \<Longrightarrow> archived (snd (download_logs r gs x))" for x gs
    by (simp add: archived_def download_logs_keeps)
  show "archived x \<Longrightarrow> archived (x\<lparr>exp_ids := ids\<rparr>)" for x ids
    by (simp add: archived_def)
  show "archived x \<Longrightarrow> archived (x\<lparr>is_exp_ids_detected := True\<rparr>)" for x
    by (simp add: archived_def)
qed (simp_all add: archived_download_logs_before_shutdown archived_store archived_emit
       write_lines_def)

lemma archived_step: "archived m \<Longrightarrow> archived (snd (step sm name r (c, m)))"
proof (rule step_invariant [where P = archived])
  show "archived x \<Longrightarrow> archived (observe_stop r x)" for x
    by (simp add: archived_def observe_stop_def)
qed (simp_all add: archived_poll_cycle archived_store archived_emit write_text_def
       write_lines_def)

lemma archived_run_steps: "archived m \<Longrightarrow> archived (snd (run_steps sm name rs (c, m)))"
  by (rule run_steps_invariant [where P = archived]) (simp_all add: archived_step)




lemma archive_at_most_once:
  "archive_runs (trace (snd (run_steps sm name rs (Starting, init_monitor t)))) \<le> 1"
proof -
  have "archived (init_monitor t)"
    by (simp add: archived_def init_monitor_def archive_runs_def)
  from archived_run_steps [OF this, of sm name rs Starting] show ?thesis
    by (simp add: archived_def split: if_splits)
qed

lemma three_cycles_archive_once:
  "archive_runs (trace (snd (run_steps ''SHUTDOWN'' ''m1''
      [answers ''0.10 0.2'' ''SHUTDOWN now'' ''t1'', answers ''0.10 0.2'' ''SHUTDOWN now'' ''t2'',
       answers ''0.10 0.2'' ''SHUTDOWN now'' ''t3''] (Polling, init_monitor ''t0'')))) = 1"
  by (simp add: evaluate archive_runs_def)



section \<open>A failed connection\<close>

text \<open>
  Two connection attempts that fail in a row: between the two calls of \<open>connect\<close>
  the monitor stores the status and does not sleep.
\<close>

theorem no_sleep_between_connects:
  "trace (snd (run_steps ''SHUTDOWN'' ''m1''
      [(answers ''0.10'' ''epoch 1'' ''t1'')\<lparr>connect := Some SSHException\<rparr>,
       (answers ''0.10'' ''epoch 1'' ''t2'')\<lparr>connect := Some SSHException\<rparr>]
      (Connecting, init_monitor ''t0''))) =
   [Connect,
    Write ((comm (init_monitor ''t0''))
             \<lparr>result := ([(StrCell ''??'', ''Could not connect!'')], ''t1'')\<rparr>),
    Connect,
    Write ((comm (init_monitor ''t0''))
             \<lparr>result := ([(StrCell ''??'', ''Could not connect!'')], ''t2'')\<rparr>)]"
  by (simp add: evaluate)

text \<open>
  Claim C6, as the code has it: when \<open>connect\<close> fails (no stop requested, the instance
  found), the monitor stores the status \<open>"Could not connect!"\<close> and is back at the test
  of the outer loop, not terminated; the pass has called \<open>connect\<close> and stored the
  status and nothing else, so no wait of the monitor's own separates two attempts: the
  next pass makes its existence check and calls \<open>connect\<close> again.
\<close>

theorem connect_failure_retries:
  assumes "\<not> stop_requested r" "\<not> should_stop (comm m)"
    and "get_instance_by_name name (instances r) = Inr (Some i)"
    and "connect r = Some e"
  shows "step sm name r (Connecting, m) =
           (Connecting,
            m\<lparr>comm := (comm m)\<lparr>result := ([(StrCell ''??'', ''Could not connect!'')], now r)\<rparr>,
              trace := trace m @ [Connect,
                 Write ((comm m)\<lparr>result := ([(StrCell ''??'', ''Could not connect!'')], now r)\<rparr>)]\<rparr>)"
  using assms
  by (simp add: observe_stop_def write_text_def write_lines_def store_def emit_def)

theorem connect_failure_retries_witness:
  "\<not> stop_requested ((answers ''0.10'' ''epoch 1'' ''t1'')\<lparr>connect := Some SSHException\<rparr>) \<and>
   \<not> should_stop (comm (init_monitor ''t0'')) \<and>
   get_instance_by_name ''m1''
     (instances ((answers ''0.10'' ''epoch 1'' ''t1'')\<lparr>connect := Some SSHException\<rparr>)) =
     Inr (Some \<lparr>tags = [(''Name'', ''m1'')], private_ip = ''10.0.0.1''\<rparr>) \<and>
   connect ((answers ''0.10'' ''epoch 1'' ''t1'')\<lparr>connect := Some SSHException\<rparr>) =
     Some SSHException \<and>
   fst (step ''SHUTDOWN'' ''m1''
          ((answers ''0.10'' ''epoch 1'' ''t1'')\<lparr>connect := Some SSHException\<rparr>)
          (Connecting, init_monitor ''t0'')) = Connecting"
proof -
  define r where "r = (answers ''0.10'' ''epoch 1'' ''t1'')\<lparr>connect := Some SSHException\<rparr>"
  have h1: "\<not> stop_requested r" by (simp add: r_def answers_def)
  have h2: "\<not> should_stop (comm (init_monitor ''t0''))" by (simp add: init_monitor_def)
  have h3: "get_instance_by_name ''m1'' (instances r) =
      Inr (Some \<lparr>tags = [(''Name'', ''m1'')], private_ip = ''10.0.0.1''\<rparr>)"
    by (simp add: r_def answers_def get_instance_by_name_def)
  have h4: "connect r = Some SSHException" by (simp add: r_def answers_def)
  have "fst (step ''SHUTDOWN'' ''m1'' r (Connecting, init_monitor ''t0'')) = Connecting"
    using connect_failure_retries [OF h1 h2 h3 h4, of "''SHUTDOWN''"] by simp
  then show ?thesis using h1 h2 h3 h4 unfolding r_def by (intro conjI)
qed

section \<open>How the run loop ends\<close>

text \<open>
  Two running instances carry the monitor's name when the outer loop makes its
  existence check: no stop was requested and the machine is not missing, yet the
  assertion of \<open>_get_instance_by_name\<close> fails outside the \<open>try\<close> and ends \<open>run\<close>.
  So does a key file that cannot be loaded when \<open>run\<close> starts.
\<close>

theorem worker_ended_by_duplicate_name:
  "\<not> stop_requested ((answers ''0.10'' ''epoch 1'' ''t1'')
         \<lparr>instances := Inr [\<lparr>tags = [(''Name'', ''m1'')], private_ip = ''10.0.0.1''\<rparr>,
                            \<lparr>tags = [(''Name'', ''m1'')], private_ip = ''10.0.0.2''\<rparr>]\<rparr>) \<and>
   get_instance_by_name ''m1'' (instances ((answers ''0.10'' ''epoch 1'' ''t1'')
         \<lparr>instances := Inr [\<lparr>tags = [(''Name'', ''m1'')], private_ip = ''10.0.0.1''\<rparr>,
                            \<lparr>tags = [(''Name'', ''m1'')], private_ip = ''10.0.0.2''\<rparr>]\<rparr>))
     \<noteq> Inr None \<and>
   fst (step ''SHUTDOWN'' ''m1''
      ((answers ''0.10'' ''epoch 1'' ''t1'')
         \<lparr>instances := Inr [\<lparr>tags = [(''Name'', ''m1'')], private_ip = ''10.0.0.1''\<rparr>,
                            \<lparr>tags = [(''Name'', ''m1'')], private_ip = ''10.0.0.2''\<rparr>]\<rparr>)
      (Connecting, init_monitor ''t0'')) = Terminated (Uncaught AssertionError) \<and>
   \<not> stop_requested ((answers ''0.10'' ''epoch 1'' ''t1'')\<lparr>key_load := Some OtherError\<rparr>) \<and>
   get_instance_by_name ''m1''
     (instances ((answers ''0.10'' ''epoch 1'' ''t1'')\<lparr>key_load := Some OtherError\<rparr>)) =
     Inr (Some \<lparr>tags = [(''Name'', ''m1'')], private_ip = ''10.0.0.1''\<rparr>) \<and>
   fst (step ''SHUTDOWN'' ''m1''
      ((answers ''0.10'' ''epoch 1'' ''t1'')\<lparr>key_load := Some OtherError\<rparr>)
      (Starting, init_monitor ''t0'')) = Terminated (Uncaught OtherError)"
  by (simp add: evaluate)

lemma stop_poll_cycle:
  "should_stop (comm (snd (poll_cycle sm r m))) = should_stop (comm m)"
  by (rule poll_cycle_invariant [where P = "\<lambda>x. should_stop (comm x) = should_stop (comm m)"])
     (simp_all add: download_logs_before_shutdown_keeps download_logs_keeps emit_def
        write_lines_def store_def)

lemma polling_pass:
  assumes "\<not> stop_requested r" "\<not> should_stop (comm m)"
  shows "fst (step sm name r (Polling, m)) =
           (case get_instance_by_name name (instances r) of
              Inl e \<Rightarrow> Connecting
            | Inr None \<Rightarrow> Terminated Instance_terminated
            | Inr (Some i) \<Rightarrow> (if fst (poll_cycle sm r m) = None then Polling else Connecting))"
    and "\<not> should_stop (comm (snd (step sm name r (Polling, m))))"
proof -
  have o: "observe_stop r m = m" using assms by (simp add: observe_stop_def)
  obtain e m1 where p: "poll_cycle sm r m = (e, m1)" by (cases "poll_cycle sm r m")
  have s: "\<not> should_stop (comm m1)" using stop_poll_cycle [of sm r m] p assms by simp
  show "fst (step sm name r (Polling, m)) =
           (case get_instance_by_name name (instances r) of
              Inl e \<Rightarrow> Connecting
            | Inr None \<Rightarrow> Terminated Instance_terminated
            | Inr (Some i) \<Rightarrow> (if fst (poll_cycle sm r m) = None then Polling else Connecting))"
    using assms o p by (cases e) (simp_all split: sum.splits option.splits)
  show "\<not> should_stop (comm (snd (step sm name r (Polling, m))))"
    using assms o p s
    by (cases e) (simp_all add: write_text_def write_lines_def store_def emit_def
        split: sum.splits option.splits)
qed

lemma connecting_pass:
  assumes "\<not> stop_requested r" "\<not> should_stop (comm m)"
  shows "fst (step sm name r (Connecting, m)) =
           (case get_instance_by_name name (instances r) of
              Inl e \<Rightarrow> Terminated (Uncaught e)
            | Inr None \<Rightarrow> Terminated Instance_terminated
            | Inr (Some i) \<Rightarrow> (if connect r = None then Polling else Connecting))"
    and "\<not> should_stop (comm (snd (step sm name r (Connecting, m))))"
  using assms
  by (simp_all add: observe_stop_def write_text_def write_lines_def store_def emit_def
      split: sum.splits option.splits)

lemma run_steps_terminated: "run_steps sm name rs (Terminated c, m) = (Terminated c, m)"
  by (induction rs) auto

lemma starting_pass:
  shows "fst (step sm name r (Starting, m)) =
           (case get_instance_by_name name (instances r) of
              Inl e \<Rightarrow> Terminated (Uncaught e)
            | Inr None \<Rightarrow> Terminated Not_found
            | Inr (Some i) \<Rightarrow>
                (case key_load r of Some e \<Rightarrow> Terminated (Uncaught e) | None \<Rightarrow> Connecting))"
    and "should_stop (comm (snd (step sm name r (Starting, m)))) = should_stop (comm m)"
  by (simp_all add: write_text_def write_lines_def store_def emit_def Let_def
      split: sum.splits option.splits)

lemma pass_exit:
  assumes nr: "\<not> stop_requested r" and ns: "\<not> should_stop (comm m)"
    and c: "c = Starting \<or> c = Connecting \<or> c = Polling"
    and s: "step sm name r (c, m) = (c1, m1)"
  shows "\<not> should_stop (comm m1)"
    and "(c1 = Starting \<or> c1 = Connecting \<or> c1 = Polling) \<or>
      (c1 = Terminated Not_found \<and> get_instance_by_name name (instances r) = Inr None \<and>
         c = Starting) \<or>
      (c1 = Terminated Instance_terminated \<and>
         get_instance_by_name name (instances r) = Inr None \<and> (c = Connecting \<or> c = Polling)) \<or>
      (\<exists>e. c1 = Terminated (Uncaught e) \<and> get_instance_by_name name (instances r) = Inl e \<and>
         (c = Starting \<or> c = Connecting)) \<or>
      (\<exists>e i. c1 = Terminated (Uncaught e) \<and>
         get_instance_by_name name (instances r) = Inr (Some i) \<and> key_load r = Some e \<and>
         c = Starting)"
proof -
  show "\<not> should_stop (comm m1)"
    using c ns s polling_pass(2) [OF nr ns, of sm name] connecting_pass(2) [OF nr ns, of sm name]
      starting_pass(2) [of sm name r m]
    by auto
  have f: "fst (step sm name r (c, m)) = c1" using s by simp
  from c consider "c = Starting" | "c = Connecting" | "c = Polling" by blast
  then show "(c1 = Starting \<or> c1 = Connecting \<or> c1 = Polling) \<or>
      (c1 = Terminated Not_found \<and> get_instance_by_name name (instances r) = Inr None \<and>
         c = Starting) \<or>
      (c1 = Terminated Instance_terminated \<and>
         get_instance_by_name name (instances r) = Inr None \<and> (c = Connecting \<or> c = Polling)) \<or>
      (\<exists>e. c1 = Terminated (Uncaught e) \<and> get_instance_by_name name (instances r) = Inl e \<and>
         (c = Starting \<or> c = Connecting)) \<or>
      (\<exists>e i. c1 = Terminated (Uncaught e) \<and>
         get_instance_by_name name (instances r) = Inr (Some i) \<and> key_load r = Some e \<and>
         c = Starting)"
  proof cases
    case 1
    then show ?thesis using f starting_pass(1) [of sm name r m]
      by (auto split: sum.splits option.splits)
  next
    case 2
    then show ?thesis using f connecting_pass(1) [OF nr ns, of sm name]
      by (auto split: sum.splits option.splits if_splits)
  next
    case 3
    then show ?thesis using f polling_pass(1) [OF nr ns, of sm name]
      by (auto split: sum.splits option.splits if_splits)
  qed
qed

text \<open>
  Claim C4, as the code has it: a started worker on which no stop is requested ends in
  these ways only. An existence check reports the machine absent: the one at the start
  of \<open>run\<close> or the one at the top of a pass of the outer or of the inner loop. Or a
  statement that stands outside the \<open>try\<close> raises: the existence check at the start of
  \<open>run\<close> or at the top of the outer loop (the assertion on two instances of one name, or
  a failure of the discovery call), or the load of the key file at the start of \<open>run\<close>.
  No failure of \<open>connect\<close>, of a remote command, of a transfer or of a parse inside a
  cycle ends the loop: lemma \<open>polling_pass\<close> sends each of them back to the test of the
  outer loop.
\<close>

theorem worker_exit:
  assumes "\<forall>r\<in>set rs. \<not> stop_requested r" "\<not> should_stop (comm m)"
    and "c = Starting \<or> c = Connecting \<or> c = Polling"
    and "run_steps sm name rs (c, m) = (Terminated cause, m')"
  shows "\<exists>before r after. rs = before @ r # after \<and>
      ((cause = Not_found \<and> get_instance_by_name name (instances r) = Inr None \<and>
          fst (run_steps sm name before (c, m)) = Starting) \<or>
       (cause = Instance_terminated \<and> get_instance_by_name name (instances r) = Inr None \<and>
          (fst (run_steps sm name before (c, m)) = Connecting \<or>
           fst (run_steps sm name before (c, m)) = Polling)) \<or>
       (\<exists>e. cause = Uncaught e \<and> get_instance_by_name name (instances r) = Inl e \<and>
          (fst (run_steps sm name before (c, m)) = Starting \<or>
           fst (run_steps sm name before (c, m)) = Connecting)) \<or>
       (\<exists>e i. cause = Uncaught e \<and> get_instance_by_name name (instances r) = Inr (Some i) \<and>
          key_load r = Some e \<and> fst (run_steps sm name before (c, m)) = Starting))"
  using assms
proof (induction rs arbitrary: c m)
  case Nil
  then show ?case by auto
next
  case (Cons r rs)
  obtain c1 m1 where s: "step sm name r (c, m) = (c1, m1)" by (cases "step sm name r (c, m)")
  have nr: "\<not> stop_requested r" and nrs: "\<forall>r\<in>set rs. \<not> stop_requested r"
    using Cons.prems(1) by simp_all
  note p = pass_exit [OF nr Cons.prems(2) Cons.prems(3) s]
  have rest: "run_steps sm name rs (c1, m1) = (Terminated cause, m')"
    using Cons.prems(4) s by simp
  show ?case
  proof (cases "c1 = Starting \<or> c1 = Connecting \<or> c1 = Polling")
    case True
    from Cons.IH [OF nrs p(1) True rest] obtain before r' after where
      b: "rs = before @ r' # after"
      "(cause = Not_found \<and> get_instance_by_name name (instances r') = Inr None \<and>
          fst (run_steps sm name before (c1, m1)) = Starting) \<or>
       (cause = Instance_terminated \<and> get_instance_by_name name (instances r') = Inr None \<and>
          (fst (run_steps sm name before (c1, m1)) = Connecting \<or>
           fst (run_steps sm name before (c1, m1)) = Polling)) \<or>
       (\<exists>e. cause = Uncaught e \<and> get_instance_by_name name (instances r') = Inl e \<and>
          (fst (run_steps sm name before (c1, m1)) = Starting \<or>
           fst (run_steps sm name before (c1, m1)) = Connecting)) \<or>
       (\<exists>e i. cause = Uncaught e \<and> get_instance_by_name name (instances r') = Inr (Some i) \<and>
          key_load r' = Some e \<and> fst (run_steps sm name before (c1, m1)) = Starting)"
      by blast
    have e1: "r # rs = (r # before) @ r' # after" using b(1) by simp
    have e2: "run_steps sm name (r # before) (c, m) = run_steps sm name before (c1, m1)"
      using s by simp
    show ?thesis
      apply (rule exI [of _ "r # before"], rule exI [of _ r'], rule exI [of _ after])
      using e1 b(2) unfolding e2 by blast
  next
    case False
    with p(2) obtain x where x: "c1 = Terminated x" by auto
    with rest have cx: "cause = x" by (simp add: run_steps_terminated)
    have e1: "r # rs = [] @ r # rs" by simp
    have e2: "fst (run_steps sm name [] (c, m)) = c" by simp
    show ?thesis
      apply (rule exI [of _ "[]"], rule exI [of _ r], rule exI [of _ rs])
      using p(2) x cx unfolding e2 by auto
  qed
qed

theorem worker_exit_witness:
  "\<not> stop_requested (answers ''0.10 0.2'' ''epoch 1'' ''t1'') \<and>
   \<not> stop_requested ((answers ''0.10 0.2'' ''epoch 1'' ''t2'')\<lparr>instances := Inr []\<rparr>) \<and>
   \<not> should_stop (comm (init_monitor ''t0'')) \<and>
   fst (run_steps ''SHUTDOWN'' ''m1''
          [answers ''0.10 0.2'' ''epoch 1'' ''t1'',
           (answers ''0.10 0.2'' ''epoch 1'' ''t2'')\<lparr>instances := Inr []\<rparr>]
          (Starting, init_monitor ''t0'')) = Terminated Instance_terminated \<and>
   (\<exists>before r after.
       [answers ''0.10 0.2'' ''epoch 1'' ''t1'',
        (answers ''0.10 0.2'' ''epoch 1'' ''t2'')\<lparr>instances := Inr []\<rparr>] = before @ r # after \<and>
       get_instance_by_name ''m1'' (instances r) = Inr None \<and>
       fst (run_steps ''SHUTDOWN'' ''m1'' before (Starting, init_monitor ''t0'')) = Connecting)"
proof -
  define ra where "ra = answers ''0.10 0.2'' ''epoch 1'' ''t1''"
  define rb where "rb = (answers ''0.10 0.2'' ''epoch 1'' ''t2'')\<lparr>instances := Inr []\<rparr>"
  define m where "m = init_monitor ''t0''"
  have ha: "\<not> stop_requested ra" by (simp add: ra_def answers_def)
  have hb: "\<not> stop_requested rb" by (simp add: rb_def answers_def)
  have h1: "\<forall>x\<in>set [ra, rb]. \<not> stop_requested x" using ha hb by simp
  have h2: "\<not> should_stop (comm m)" by (simp add: m_def init_monitor_def)
  have h3: "Starting = Starting \<or> Starting = Connecting \<or> Starting = Polling" by simp
  have f: "fst (run_steps ''SHUTDOWN'' ''m1'' [ra, rb] (Starting, m)) =
      Terminated Instance_terminated"
    by (simp add: ra_def rb_def m_def evaluate)
  then have h4: "run_steps ''SHUTDOWN'' ''m1'' [ra, rb] (Starting, m) =
      (Terminated Instance_terminated,
       snd (run_steps ''SHUTDOWN'' ''m1'' [ra, rb] (Starting, m)))"
    by (cases "run_steps ''SHUTDOWN'' ''m1'' [ra, rb] (Starting, m)") simp
  from worker_exit [OF h1 h2 h3 h4] obtain before r after where
    b: "[ra, rb] = before @ r # after"
      "get_instance_by_name ''m1'' (instances r) = Inr None"
      "fst (run_steps ''SHUTDOWN'' ''m1'' before (Starting, m)) = Connecting \<or>
       fst (run_steps ''SHUTDOWN'' ''m1'' before (Starting, m)) = Polling"
    by auto
  have na: "get_instance_by_name ''m1'' (instances ra) \<noteq> Inr None"
    by (simp add: ra_def answers_def get_instance_by_name_def)
  have "before = [ra] \<and> r = rb"
    using b(1,2) na by (cases before; cases "tl before") auto
  moreover have "fst (run_steps ''SHUTDOWN'' ''m1'' [ra] (Starting, m)) = Connecting"
    by (simp add: ra_def m_def evaluate)
  ultimately have e: "\<exists>before r after. [ra, rb] = before @ r # after \<and>
       get_instance_by_name ''m1'' (instances r) = Inr None \<and>
       fst (run_steps ''SHUTDOWN'' ''m1'' before (Starting, m)) = Connecting"
    using b(1,2) by blast
  show ?thesis using ha hb h2 f e unfolding ra_def rb_def m_def by (intro conjI)
qed

section \<open>The GPU columns of an empty sample list\<close>

lemma gpu_poll_groups:
  "gpu (comm (snd (poll_groups sm r file_ids m))) = gpu (comm m)"
  by (rule poll_groups_invariant [where P = "\<lambda>x. gpu (comm x) = gpu (comm m)"])
     (simp_all add: download_logs_before_shutdown_keeps download_logs_keeps emit_def
        write_lines_def store_def)

text \<open>
  Claim C9: \<open>make_gpu_fields\<close> raises IndexError on an empty list of GPU samples, and
  the monitor can publish such a list: when the GPU query gives no row that parses (for
  instance no output at all), the poll cycle stores the empty list under \<open>"gpu"\<close> and
  nothing later in the cycle replaces it.
\<close>

theorem empty_gpu_list_raises:
  assumes "loadavg r = Inr lout" "nvidia_smi r = Inr gout" "parse_gpu_output gout = Inr []"
  shows "make_gpu_fields [] = Inl IndexError \<and>
         gpu (comm (snd (poll_cycle sm r m))) = [] \<and>
         make_gpu_fields (gpu (comm (snd (poll_cycle sm r m)))) = Inl IndexError"
proof -
  have a: "make_gpu_fields [] = Inl IndexError"
    by (simp add: make_gpu_fields_def all_gpus_same_memory_def py_index_def)
  have b: "gpu (comm (snd (poll_cycle sm r m))) = []"
    using assms
    by (simp add: poll_cycle_def Let_def gpu_poll_groups split: sum.splits)
       (simp add: store_def emit_def)
  show ?thesis using a b by simp
qed

theorem empty_gpu_list_raises_witness:
  "loadavg ((answers ''0.10 0.2'' ''epoch 1'' ''t1'')\<lparr>nvidia_smi := Inr []\<rparr>) = Inr ''0.10 0.2'' \<and>
   nvidia_smi ((answers ''0.10 0.2'' ''epoch 1'' ''t1'')\<lparr>nvidia_smi := Inr []\<rparr>) = Inr [] \<and>
   parse_gpu_output [] = Inr [] \<and>
   make_gpu_fields (gpu (comm (snd (poll_cycle ''SHUTDOWN''
      ((answers ''0.10 0.2'' ''epoch 1'' ''t1'')\<lparr>nvidia_smi := Inr []\<rparr>)
      (init_monitor ''t0''))))) = Inl IndexError"
proof -
  define r where "r = (answers ''0.10 0.2'' ''epoch 1'' ''t1'')\<lparr>nvidia_smi := Inr []\<rparr>"
  have h1: "loadavg r = Inr ''0.10 0.2''" by (simp add: r_def answers_def)
  have h2: "nvidia_smi r = Inr []" by (simp add: r_def answers_def)
  have h3: "parse_gpu_output [] = Inr []" by (simp add: parse_gpu_output_def py_split_def)
  have "make_gpu_fields (gpu (comm (snd (poll_cycle ''SHUTDOWN'' r (init_monitor ''t0''))))) =
      Inl IndexError"
    using empty_gpu_list_raises [OF h1 h2 h3] by simp
  then show ?thesis using h1 h2 h3 unfolding r_def by (intro conjI)
qed

end
